theory Spec2Isabelle
  imports
    Complex_Main
    "HOL-Library.Char_ord"
    "HOL-Library.List_Lexorder"
    "HOL-Library.AList"
    "HOL-Library.Multiset"
begin

section \<open>CSV-to-table utilities of \<^verbatim>\<open>tests/integration/db_utils.py\<close>\<close>

text \<open>
  The development embeds the decision logic of \<^verbatim>\<open>db_utils.py\<close>: type inference
  (\<^verbatim>\<open>infer_column_types\<close>), cell conversion (\<^verbatim>\<open>convert_value\<close>), the import pipeline
  (\<^verbatim>\<open>import_csv\<close>), the cascading drop (\<^verbatim>\<open>drop_schema\<close>) and the CSV comparator
  (\<^verbatim>\<open>compare_csv_files\<close>).

  Conventions.
  \<^item> A Python \<^verbatim>\<open>str\<close> is a \<open>string\<close>; one \<open>char\<close> stands for one code point, so the
    model covers the strings whose code points are below 256.
  \<^item> An exception is a value \<open>Inl e\<close> of a sum type.
  \<^item> \<^verbatim>\<open>print\<close> calls write to standard output only and are left out.
\<close>

subsection \<open>Python built-ins used by the module\<close>

subsubsection \<open>Whitespace, digits and digit groups\<close>

text \<open>
  \<^verbatim>\<open>int\<close> and \<^verbatim>\<open>float\<close> ignore leading and trailing whitespace. Below code point 256
  the characters they skip are TAB, LF, VT, FF, CR, space, NEL (133) and NBSP (160).
\<close>

definition is_space :: "char \<Rightarrow> bool" where
  "is_space c = ((of_char c :: nat) \<in> {9, 10, 11, 12, 13, 32, 133, 160})"

definition strip :: "string \<Rightarrow> string" where
  "strip s = rev (dropWhile is_space (rev (dropWhile is_space s)))"

definition is_digit :: "char \<Rightarrow> bool" where
  "is_digit c = (48 \<le> (of_char c :: nat) \<and> (of_char c :: nat) \<le> 57)"

definition digit_val :: "char \<Rightarrow> nat" where
  "digit_val c = of_char c - 48"

text \<open>
  \<^verbatim>\<open>digitpart ::= digit (["_"] digit)*\<close>: the whole string must be a digit group, single
  underscores are allowed between two digits only. The result is the list of digits.
\<close>

fun digitpart :: "string \<Rightarrow> nat list option" where
  "digitpart [] = None"
| "digitpart [c] = (if is_digit c then Some [digit_val c] else None)"
| "digitpart (c # d # cs) =
     (if is_digit c
      then map_option (Cons (digit_val c))
             (if d = CHR ''_'' then digitpart cs else digitpart (d # cs))
      else None)"

definition digits_to_nat :: "nat list \<Rightarrow> nat" where
  "digits_to_nat ds = foldl (\<lambda>a d. 10 * a + d) 0 ds"

definition decimal :: "string \<Rightarrow> nat option" where
  "decimal s = map_option digits_to_nat (digitpart s)"

subsubsection \<open>\<^verbatim>\<open>int(str)\<close>\<close>

text \<open>
  \<^verbatim>\<open>int(v)\<close> in base 10: optional whitespace, an optional sign, a digit group, optional
  whitespace. \<open>None\<close> stands for \<^verbatim>\<open>ValueError\<close>. Python integers are unbounded, but
  CPython (3.11, and the security releases of the versions before it) also raises
  \<^verbatim>\<open>ValueError\<close> for a string with more than \<^verbatim>\<open>sys.int_max_str_digits\<close> digits, 4300
  unless the interpreter is configured otherwise; underscores, sign and whitespace do not
  count.
\<close>

definition signed_decimal :: "string \<Rightarrow> int option" where
  "signed_decimal t =
     (case t of
        [] \<Rightarrow> None
      | c # cs \<Rightarrow>
          if c = CHR ''-'' then map_option (\<lambda>n. - int n) (decimal cs)
          else if c = CHR ''+'' then map_option int (decimal cs)
          else map_option int (decimal t))"

definition int_max_str_digits :: nat where
  "int_max_str_digits = 4300"

definition py_int :: "string \<Rightarrow> int option" where
  "py_int s =
     (let t = strip s
      in if int_max_str_digits < length (filter is_digit t) then None
         else signed_decimal t)"

subsubsection \<open>\<^verbatim>\<open>float(str)\<close>\<close>

text \<open>
  A Python float is an IEEE 754 binary64 value. A finite one is represented by the
  rational it denotes (both zeros by \<open>0\<close>, which \<^verbatim>\<open>==\<close> does not distinguish).
\<close>

datatype pyfloat = Finite rat | PosInf | NegInf | NaN

text \<open>\<^verbatim>\<open>==\<close> on floats: a NaN equals nothing, itself included.\<close>

fun float_eq :: "pyfloat \<Rightarrow> pyfloat \<Rightarrow> bool" where
  "float_eq (Finite a) (Finite b) = (a = b)"
| "float_eq PosInf PosInf = True"
| "float_eq NegInf NegInf = True"
| "float_eq _ _ = False"

text \<open>Number of binary digits of a natural number.\<close>

fun bitlen :: "nat \<Rightarrow> nat" where
  "bitlen n = (if n = 0 then 0 else Suc (bitlen (n div 2)))"

declare bitlen.simps [simp del]

definition pow2 :: "int \<Rightarrow> rat" where
  "pow2 i = (if 0 \<le> i then 2 ^ nat i else 1 / 2 ^ nat (- i))"

text \<open>\<open>round_half_even n d\<close>: the integer nearest to \<open>n / d\<close>, ties to the even one.\<close>

definition round_half_even :: "nat \<Rightarrow> nat \<Rightarrow> nat" where
  "round_half_even n d =
     (let q = n div d; r = n mod d
      in if 2 * r < d then q
         else if d < 2 * r then q + 1
         else if even q then q else q + 1)"

text \<open>
  \<open>binade n d\<close>: for a positive rational \<open>n / d\<close> the exponent \<open>e\<close> with
  \<open>2 ^ e \<le> n / d < 2 ^ (e + 1)\<close>.
\<close>

definition binade :: "nat \<Rightarrow> nat \<Rightarrow> int" where
  "binade n d =
     (let k = int (bitlen n) - int (bitlen d)
      in if (if 0 \<le> k then 2 ^ nat k * d \<le> n else d \<le> n * 2 ^ nat (- k))
         then k else k - 1)"

text \<open>
  \<open>round_double n d\<close>: the positive rational \<open>n / d\<close> rounded to the nearest binary64 value
  (53 significant bits, least exponent \<open>-1022\<close>, subnormals in steps of \<open>2 ^ -1074\<close>),
  ties to even; \<open>None\<close> when the rounded value reaches \<open>2 ^ 1024\<close> (infinity).
\<close>

definition round_double :: "nat \<Rightarrow> nat \<Rightarrow> rat option" where
  "round_double n d =
     (let e = binade n d
      in if 1023 < e then None
         else
           let sh = max e (- 1022) - 52;
               m = (if 0 \<le> sh then round_half_even n (d * 2 ^ nat sh)
                    else round_half_even (n * 2 ^ nat (- sh)) d);
               v = of_nat m * pow2 sh
           in if 2 ^ 1024 \<le> v then None else Some v)"

text \<open>
  \<open>scale_double neg m e\<close>: the float nearest to \<open>\<plusminus> m * 10 ^ e\<close>, what the correctly
  rounded \<^verbatim>\<open>strtod\<close> of CPython returns for a decimal literal.
\<close>

definition scale_double :: "bool \<Rightarrow> nat \<Rightarrow> int \<Rightarrow> pyfloat" where
  "scale_double neg m e =
     (if m = 0 then Finite 0
      else
        case (if 0 \<le> e then round_double (m * 10 ^ nat e) 1
              else round_double m (10 ^ nat (- e))) of
          None \<Rightarrow> (if neg then NegInf else PosInf)
        | Some v \<Rightarrow> Finite (if neg then - v else v))"

text \<open>
  The grammar of \<^verbatim>\<open>float(str)\<close>, after stripping whitespace and an optional sign
  (no limit on the number of digits applies here):
  \<^verbatim>\<open>
  number      ::= [digitpart] "." digitpart | digitpart ["."]
  exponent    ::= ("e" | "E") [sign] digitpart
  floatnumber ::= number [exponent]
  \<close>
  or one of \<^verbatim>\<open>inf\<close>, \<^verbatim>\<open>infinity\<close>, \<^verbatim>\<open>nan\<close> in any letter case.
\<close>

definition lower :: "char \<Rightarrow> char" where
  "lower c = (if 65 \<le> (of_char c :: nat) \<and> (of_char c :: nat) \<le> 90
              then char_of ((of_char c :: nat) + 32) else c)"

text \<open>\<open>number s\<close>: the digits left and right of the point.\<close>

definition number :: "string \<Rightarrow> (nat list \<times> nat list) option" where
  "number s =
     (let ip = takeWhile (\<lambda>c. c \<noteq> CHR ''.'') s;
          rest = dropWhile (\<lambda>c. c \<noteq> CHR ''.'') s
      in case rest of
           [] \<Rightarrow> map_option (\<lambda>ds. (ds, [])) (digitpart ip)
         | _ # fp \<Rightarrow>
             if ip = [] then map_option (\<lambda>fs. ([], fs)) (digitpart fp)
             else if fp = [] then map_option (\<lambda>ds. (ds, [])) (digitpart ip)
             else (case (digitpart ip, digitpart fp) of
                     (Some ds, Some fs) \<Rightarrow> Some (ds, fs)
                   | _ \<Rightarrow> None))"

definition is_exp_mark :: "char \<Rightarrow> bool" where
  "is_exp_mark c = (c = CHR ''e'' \<or> c = CHR ''E'')"

definition floatnumber :: "bool \<Rightarrow> string \<Rightarrow> pyfloat option" where
  "floatnumber neg s =
     (let mant = takeWhile (\<lambda>c. \<not> is_exp_mark c) s;
          rest = dropWhile (\<lambda>c. \<not> is_exp_mark c) s
      in case number mant of
           None \<Rightarrow> None
         | Some (ds, fs) \<Rightarrow>
             (case (case rest of [] \<Rightarrow> Some 0 | _ # ex \<Rightarrow> signed_decimal ex) of
                None \<Rightarrow> None
              | Some e \<Rightarrow>
                  Some (scale_double neg (digits_to_nat (ds @ fs)) (e - int (length fs)))))"

definition absfloatvalue :: "bool \<Rightarrow> string \<Rightarrow> pyfloat option" where
  "absfloatvalue neg s =
     (if map lower s = ''inf'' \<or> map lower s = ''infinity''
      then Some (if neg then NegInf else PosInf)
      else if map lower s = ''nan'' then Some NaN
      else floatnumber neg s)"

definition py_float :: "string \<Rightarrow> pyfloat option" where
  "py_float s =
     (case strip s of
        [] \<Rightarrow> None
      | c # cs \<Rightarrow>
          if c = CHR ''-'' then absfloatvalue True cs
          else if c = CHR ''+'' then absfloatvalue False cs
          else absfloatvalue False (c # cs))"

subsubsection \<open>Substring test and the two regular expressions\<close>

text \<open>\<^verbatim>\<open>needle in hay\<close> on strings.\<close>

fun starts_with :: "string \<Rightarrow> string \<Rightarrow> bool" where
  "starts_with [] hay = True"
| "starts_with (n # ns) [] = False"
| "starts_with (n # ns) (h # hs) = (n = h \<and> starts_with ns hs)"

fun contains :: "string \<Rightarrow> string \<Rightarrow> bool" where
  "contains needle [] = (needle = [])"
| "contains needle (h # hs) = (starts_with needle (h # hs) \<or> contains needle hs)"

text \<open>
  A pattern is a sequence of single-character tests: \<^verbatim>\<open>\d\<close>, a literal, or a class
  such as \<^verbatim>\<open>[T ]\<close>. \<open>match_prefix p s\<close> returns what is left of \<open>s\<close> after the pattern.
\<close>

datatype pat = Digit | Lit char | OneOf "char list"

fun pat_ok :: "pat \<Rightarrow> char \<Rightarrow> bool" where
  "pat_ok Digit c = is_digit c"
| "pat_ok (Lit l) c = (c = l)"
| "pat_ok (OneOf ls) c = (c \<in> set ls)"

fun match_prefix :: "pat list \<Rightarrow> string \<Rightarrow> string option" where
  "match_prefix [] s = Some s"
| "match_prefix (p # ps) [] = None"
| "match_prefix (p # ps) (c # cs) = (if pat_ok p c then match_prefix ps cs else None)"

definition ymd :: "pat list" where
  "ymd = [Digit, Digit, Digit, Digit, Lit CHR ''-'', Digit, Digit, Lit CHR ''-'', Digit, Digit]"

text \<open>
  \<^verbatim>\<open>re.match(r'^\d{4}-\d{2}-\d{2}$', v)\<close>: \<^verbatim>\<open>$\<close> matches at the end of the string and
  also just before a final newline.
\<close>

definition date_pattern :: "string \<Rightarrow> bool" where
  "date_pattern v =
     (case match_prefix ymd v of
        None \<Rightarrow> False
      | Some rest \<Rightarrow> rest = [] \<or> rest = [CHR 0x0A])"

text \<open>\<^verbatim>\<open>re.match(r'^\d{4}-\d{2}-\d{2}[T ]\d{2}:\d{2}:\d{2}', v)\<close>: a prefix match.\<close>

definition datetime_pattern :: "string \<Rightarrow> bool" where
  "datetime_pattern v =
     (match_prefix
        (ymd @ [OneOf ''T '', Digit, Digit, Lit CHR '':'', Digit, Digit, Lit CHR '':'',
                Digit, Digit]) v \<noteq> None)"

subsection \<open>CSV documents as \<^verbatim>\<open>csv.DictReader\<close> delivers them\<close>

text \<open>
  A CSV file is taken as the list of records that \<^verbatim>\<open>csv.reader\<close> yields, each a list of
  fields; the first record is the header. A blank line is the empty record.

  A cell of a row dictionary is a string or Python's \<^verbatim>\<open>None\<close> (the \<^verbatim>\<open>restval\<close> of
  a short record).
\<close>

type_synonym csv_file = "string list list"

datatype cell = NoneCell | Str string

type_synonym row = "string \<rightharpoonup> cell"

text \<open>\<^verbatim>\<open>reader.fieldnames\<close>: the first record, \<^verbatim>\<open>None\<close> for a file without records.\<close>

definition fieldnames :: "csv_file \<Rightarrow> string list option" where
  "fieldnames f = (case f of [] \<Rightarrow> None | h # _ \<Rightarrow> Some h)"

text \<open>
  One step of \<^verbatim>\<open>DictReader.__next__\<close>: \<^verbatim>\<open>dict(zip(fieldnames, row))\<close>, where a later
  duplicate key overwrites an earlier one, then \<^verbatim>\<open>None\<close> for every field name beyond a
  short record. The fields beyond a long record go to the key \<^verbatim>\<open>None\<close>, which no header
  equals and no lookup of this module reads; the model leaves that entry out.
\<close>

definition dict_row :: "string list \<Rightarrow> string list \<Rightarrow> row" where
  "dict_row names rec =
     fold (\<lambda>k d. d(k \<mapsto> NoneCell)) (drop (length rec) names)
       (fold (\<lambda>(k, v) d. d(k \<mapsto> Str v)) (zip names rec) Map.empty)"

text \<open>\<^verbatim>\<open>list(reader)\<close>: blank records are skipped.\<close>

definition dict_rows :: "csv_file \<Rightarrow> row list" where
  "dict_rows f =
     (case f of
        [] \<Rightarrow> []
      | names # recs \<Rightarrow> map (dict_row names) (filter (\<lambda>r. r \<noteq> []) recs))"

text \<open>\<^verbatim>\<open>row.get(h, '')\<close>.\<close>

definition row_get :: "row \<Rightarrow> string \<Rightarrow> cell" where
  "row_get r h = (case r h of None \<Rightarrow> Str [] | Some c \<Rightarrow> c)"

text \<open>\<^verbatim>\<open>str(x)\<close> of a cell.\<close>

fun str :: "cell \<Rightarrow> string" where
  "str NoneCell = ''None''"
| "str (Str s) = s"

subsection \<open>Type inference\<close>

text \<open>
  \<^verbatim>\<open>values = [row.get(header, '') for row in rows if row.get(header, '')]\<close>: the truthy
  cells of a column, which are its non-empty strings.
\<close>

definition column_values :: "string \<Rightarrow> row list \<Rightarrow> string list" where
  "column_values header rows =
     List.map_filter
       (\<lambda>r. case row_get r header of
               NoneCell \<Rightarrow> None
             | Str s \<Rightarrow> if s = [] then None else Some s) rows"

text \<open>
  The body of the loop of \<^verbatim>\<open>infer_column_types\<close> for one column. A \<^verbatim>\<open>try\<close> block
  falls through to the next test as soon as one value fails to parse.
\<close>

definition infer_type :: "string list \<Rightarrow> string" where
  "infer_type vals =
     (if vals = [] then ''NVARCHAR(255)''
      else if list_all (\<lambda>v. py_int v \<noteq> None) vals
      then (if Max (set (map (\<lambda>v. \<bar>the (py_int v)\<bar>) vals)) \<le> 2147483647
            then ''INT'' else ''BIGINT'')
      else if list_all (\<lambda>v. py_float v \<noteq> None) vals then ''DECIMAL(18,6)''
      else if list_all date_pattern vals then ''DATE''
      else if list_all datetime_pattern vals then ''DATETIME2''
      else
        let max_len = Max (set (map length vals))
        in if max_len \<le> 50 then ''NVARCHAR(50)''
           else if max_len \<le> 255 then ''NVARCHAR(255)''
           else ''NVARCHAR(MAX)'')"

text \<open>
  A Python \<^verbatim>\<open>dict\<close> keeps insertion order, and assigning to an existing key keeps its
  place: an association list with \<open>AList.update\<close>.
\<close>

type_synonym col_types = "(string \<times> string) list"

fun infer_loop :: "string list \<Rightarrow> row list \<Rightarrow> col_types \<Rightarrow> col_types" where
  "infer_loop [] rows ct = ct"
| "infer_loop (header # headers) rows ct =
     infer_loop headers rows (AList.update header (infer_type (column_values header rows)) ct)"

definition infer_column_types :: "string list \<Rightarrow> row list \<Rightarrow> col_types" where
  "infer_column_types headers rows = infer_loop headers rows []"

text \<open>\<^verbatim>\<open>d.get(k, default)\<close> on such a dictionary.\<close>

definition dict_get :: "col_types \<Rightarrow> string \<Rightarrow> string \<Rightarrow> string" where
  "dict_get d k dflt = (case map_of d k of None \<Rightarrow> dflt | Some v \<Rightarrow> v)"

subsection \<open>Schema generator\<close>

fun join :: "string \<Rightarrow> string list \<Rightarrow> string" where
  "join sep [] = []"
| "join sep [x] = x"
| "join sep (x # y # ys) = x @ sep @ join sep (y # ys)"

definition generate_create_table :: "string \<Rightarrow> string \<Rightarrow> col_types \<Rightarrow> string" where
  "generate_create_table schema_name table_name ct =
     ''CREATE TABLE ['' @ schema_name @ ''].['' @ table_name @ ''] ('' @ [CHR 0x0A] @ ''    ''
       @ join ('','' @ [CHR 0x0A] @ ''    '')
           (map (\<lambda>(col, dtype). ''['' @ col @ ''] '' @ dtype @ '' NULL'') ct)
       @ [CHR 0x0A] @ '')''"

subsection \<open>Cell conversion\<close>

text \<open>The values handed to the driver as statement parameters.\<close>

datatype pyval = PyNone | PyStr string | PyInt int | PyFloat pyfloat

text \<open>
  The exceptions: \<^verbatim>\<open>ValueError\<close> raised by \<^verbatim>\<open>int\<close> or \<^verbatim>\<open>float\<close> on a string they
  cannot parse (with that string), the \<^verbatim>\<open>ValueError\<close> of \<^verbatim>\<open>import_csv\<close> for a file
  without headers, the \<^verbatim>\<open>TypeError\<close> of \<^verbatim>\<open>set(None)\<close>, and an error raised by the
  database driver.
\<close>

datatype error =
    ValueError string
  | NoHeaders
  | TypeError
  | BackendError

text \<open>\<^verbatim>\<open>convert_value(value, sql_type)\<close>.\<close>

definition convert_value :: "cell \<Rightarrow> string \<Rightarrow> error + pyval" where
  "convert_value v sql_type =
     (case v of
        NoneCell \<Rightarrow> Inr PyNone
      | Str s \<Rightarrow>
          if s = [] then Inr PyNone
          else if contains ''INT'' sql_type
          then (case py_int s of None \<Rightarrow> Inl (ValueError s) | Some n \<Rightarrow> Inr (PyInt n))
          else if contains ''DECIMAL'' sql_type \<or> contains ''FLOAT'' sql_type
          then (case py_float s of None \<Rightarrow> Inl (ValueError s) | Some x \<Rightarrow> Inr (PyFloat x))
          else Inr (PyStr s))"

subsection \<open>The database session\<close>

text \<open>
  The statements the module sends through \<^verbatim>\<open>cursor.execute\<close> and \<^verbatim>\<open>conn.commit\<close>, by
  their meaning: the three catalog lookups of \<^verbatim>\<open>schema_exists\<close>, \<^verbatim>\<open>table_exists\<close> and
  \<^verbatim>\<open>drop_schema\<close>, the data definition statements, the parameterised insert (columns
  and values) and the commit.
\<close>

datatype stmt =
    SelectSchemaCount string
  | SelectTableCount string string
  | SelectTableNames string
  | CreateTable string string string
  | TruncateTable string string
  | InsertInto string string "string list" "pyval list"
  | DropTable string string
  | DropSchema string
  | Commit

text \<open>
  The session is a collaborator of the module. Its model holds the catalog (schema names,
  and tables as pairs of schema and table name), the statements issued so far, and the
  backend's decision to raise an error on a statement, which may depend on everything
  issued before. Catalog lookups are answered from the catalog.
\<close>

record conn =
  schemas :: "string list"
  tables :: "(string \<times> string) list"
  issued :: "stmt list"
  refuses :: "stmt list \<Rightarrow> stmt \<Rightarrow> bool"

fun effect :: "stmt \<Rightarrow> conn \<Rightarrow> conn" where
  "effect (CreateTable s t sql) c = c\<lparr>tables := tables c @ [(s, t)]\<rparr>"
| "effect (DropTable s t) c = c\<lparr>tables := removeAll (s, t) (tables c)\<rparr>"
| "effect (DropSchema s) c = c\<lparr>schemas := removeAll s (schemas c)\<rparr>"
| "effect _ c = c"

definition execute :: "stmt \<Rightarrow> conn \<Rightarrow> (error + unit) \<times> conn" where
  "execute st c =
     (if refuses c (issued c) st
      then (Inl BackendError, c\<lparr>issued := issued c @ [st]\<rparr>)
      else (Inr (), effect st (c\<lparr>issued := issued c @ [st]\<rparr>)))"

text \<open>\<^verbatim>\<open>schema_exists\<close>: \<^verbatim>\<open>SELECT COUNT(*) FROM sys.schemas WHERE name = ?\<close>, then \<^verbatim>\<open>> 0\<close>.\<close>

definition schema_exists :: "conn \<Rightarrow> string \<Rightarrow> bool \<times> conn" where
  "schema_exists c schema_name =
     (0 < count_list (schemas c) schema_name,
      c\<lparr>issued := issued c @ [SelectSchemaCount schema_name]\<rparr>)"

definition table_exists :: "conn \<Rightarrow> string \<Rightarrow> string \<Rightarrow> bool \<times> conn" where
  "table_exists c schema_name table_name =
     (0 < count_list (tables c) (schema_name, table_name),
      c\<lparr>issued := issued c @ [SelectTableCount schema_name table_name]\<rparr>)"

subsection \<open>Dropping a schema\<close>

text \<open>The loop \<^verbatim>\<open>for table in tables: cursor.execute(DROP TABLE ...)\<close>.\<close>

fun drop_tables :: "string \<Rightarrow> string list \<Rightarrow> conn \<Rightarrow> (error + unit) \<times> conn" where
  "drop_tables schema_name [] c = (Inr (), c)"
| "drop_tables schema_name (t # ts) c =
     (case execute (DropTable schema_name t) c of
        (Inl e, c') \<Rightarrow> (Inl e, c')
      | (Inr _, c') \<Rightarrow> drop_tables schema_name ts c')"

definition drop_schema :: "conn \<Rightarrow> string \<Rightarrow> bool \<Rightarrow> (error + bool) \<times> conn" where
  "drop_schema c schema_name cascade =
     (case schema_exists c schema_name of
        (exists, c1) \<Rightarrow>
          if \<not> exists then (Inr True, c1)
          else
            case (if cascade
                  then drop_tables schema_name
                         (map snd (filter (\<lambda>(s, t). s = schema_name) (tables c1)))
                         (c1\<lparr>issued := issued c1 @ [SelectTableNames schema_name]\<rparr>)
                  else (Inr (), c1)) of
              (Inl e, c2) \<Rightarrow> (Inl e, c2)
            | (Inr _, c2) \<Rightarrow>
                (case execute (DropSchema schema_name) c2 of
                   (Inl e, c3) \<Rightarrow> (Inl e, c3)
                 | (Inr _, c3) \<Rightarrow>
                     (case execute Commit c3 of
                        (Inl e, c4) \<Rightarrow> (Inl e, c4)
                      | (Inr _, c4) \<Rightarrow> (Inr True, c4))))"

subsection \<open>Import pipeline\<close>

text \<open>A list comprehension whose elements may raise: the first error, left to right.\<close>

fun collect :: "(error + 'a) list \<Rightarrow> error + 'a list" where
  "collect [] = Inr []"
| "collect (Inl e # xs) = Inl e"
| "collect (Inr v # xs) = (case collect xs of Inl e \<Rightarrow> Inl e | Inr vs \<Rightarrow> Inr (v # vs))"

text \<open>
  \<^verbatim>\<open>[convert_value(row.get(h, ''), col_types.get(h, 'NVARCHAR')) for h in headers]\<close>
\<close>

definition insert_values :: "string list \<Rightarrow> col_types \<Rightarrow> row \<Rightarrow> (error + pyval) list" where
  "insert_values headers ct r =
     map (\<lambda>h. convert_value (row_get r h) (dict_get ct h ''NVARCHAR'')) headers"

text \<open>The insert loop; the counter is \<^verbatim>\<open>rows_imported\<close>.\<close>

fun insert_rows ::
  "string \<Rightarrow> string \<Rightarrow> string list \<Rightarrow> col_types \<Rightarrow> row list \<Rightarrow> nat \<Rightarrow> conn
    \<Rightarrow> (error + nat) \<times> conn" where
  "insert_rows schema_name table_name headers ct [] n c = (Inr n, c)"
| "insert_rows schema_name table_name headers ct (r # rs) n c =
     (case collect (insert_values headers ct r) of
        Inl e \<Rightarrow> (Inl e, c)
      | Inr vals \<Rightarrow>
          (case execute (InsertInto schema_name table_name headers vals) c of
             (Inl e, c') \<Rightarrow> (Inl e, c')
           | (Inr _, c') \<Rightarrow> insert_rows schema_name table_name headers ct rs (n + 1) c'))"

text \<open>
  \<^verbatim>\<open>if create_table and not table_exists(...)\<close>: the lookup is issued only when
  \<^verbatim>\<open>create_table\<close> is set.
\<close>

definition create_if_needed ::
  "conn \<Rightarrow> string \<Rightarrow> string \<Rightarrow> col_types \<Rightarrow> bool \<Rightarrow> (error + unit) \<times> conn" where
  "create_if_needed c schema_name table_name ct create_table =
     (if create_table
      then (case table_exists c schema_name table_name of
              (exists, c1) \<Rightarrow>
                if \<not> exists
                then (case execute (CreateTable schema_name table_name
                                      (generate_create_table schema_name table_name ct)) c1 of
                        (Inl e, c2) \<Rightarrow> (Inl e, c2)
                      | (Inr _, c2) \<Rightarrow> execute Commit c2)
                else (Inr (), c1))
      else (Inr (), c))"

definition truncate_if_requested ::
  "conn \<Rightarrow> string \<Rightarrow> string \<Rightarrow> bool \<Rightarrow> (error + unit) \<times> conn" where
  "truncate_if_requested c schema_name table_name truncate_flag =
     (if truncate_flag
      then (case table_exists c schema_name table_name of
              (exists, c1) \<Rightarrow>
                if exists then execute (TruncateTable schema_name table_name) c1
                else (Inr (), c1))
      else (Inr (), c))"

text \<open>
  \<^verbatim>\<open>import_csv\<close>, with the records of the file at \<^verbatim>\<open>csv_path\<close> as input.
  \<^verbatim>\<open>if not headers\<close> holds for \<^verbatim>\<open>None\<close> and for the empty list.
\<close>

definition import_csv ::
  "conn \<Rightarrow> csv_file \<Rightarrow> string \<Rightarrow> string \<Rightarrow> bool \<Rightarrow> bool \<Rightarrow> (error + nat) \<times> conn" where
  "import_csv c f schema_name table_name create_table truncate_flag =
     (case fieldnames f of
        None \<Rightarrow> (Inl NoHeaders, c)
      | Some headers \<Rightarrow>
          if headers = [] then (Inl NoHeaders, c)
          else
            let rows = dict_rows f
            in if rows = [] then (Inr 0, c)
               else
                 let ct = infer_column_types headers rows
                 in case create_if_needed c schema_name table_name ct create_table of
                      (Inl e, c1) \<Rightarrow> (Inl e, c1)
                    | (Inr _, c1) \<Rightarrow>
                        (case truncate_if_requested c1 schema_name table_name truncate_flag of
                           (Inl e, c2) \<Rightarrow> (Inl e, c2)
                         | (Inr _, c2) \<Rightarrow>
                             (case insert_rows schema_name table_name headers ct rows 0 c2 of
                                (Inl e, c3) \<Rightarrow> (Inl e, c3)
                              | (Inr n, c3) \<Rightarrow>
                                  (case execute Commit c3 of
                                     (Inl e, c4) \<Rightarrow> (Inl e, c4)
                                   | (Inr _, c4) \<Rightarrow> (Inr n, c4)))))"

text \<open>The parameter lists of the insert statements among the statements issued.\<close>

fun inserted :: "stmt list \<Rightarrow> pyval list list" where
  "inserted [] = []"
| "inserted (InsertInto s t cols vals # sts) = vals # inserted sts"
| "inserted (st # sts) = inserted sts"

subsection \<open>CSV comparator\<close>

text \<open>
  The difference descriptions, one constructor for each message:
  \<^verbatim>\<open>Headers differ: {headers1} vs {headers2}\<close>,
  \<^verbatim>\<open>Row count differs: {len(rows1)} vs {len(rows2)}\<close> and
  \<^verbatim>\<open>Row {i+1}, column '{h}': '{v1}' vs '{v2}'\<close>.
\<close>

datatype difference =
    HeadersDiffer "string list" "string list"
  | RowCountDiffers nat nat
  | CellDiffers nat string string string

text \<open>\<^verbatim>\<open>float(v1) == float(v2)\<close>, where a \<^verbatim>\<open>ValueError\<close> is caught and leaves the cells unequal.\<close>

definition same_number :: "string \<Rightarrow> string \<Rightarrow> bool" where
  "same_number v1 v2 =
     (case (py_float v1, py_float v2) of
        (Some x, Some y) \<Rightarrow> float_eq x y
      | _ \<Rightarrow> False)"

definition cell_differs :: "string \<Rightarrow> string \<Rightarrow> bool" where
  "cell_differs v1 v2 = (v1 \<noteq> v2 \<and> \<not> same_number v1 v2)"

text \<open>The inner loop \<^verbatim>\<open>for h in headers1 or []\<close> for the row pair at index \<open>i\<close>.\<close>

definition row_diffs :: "string list \<Rightarrow> nat \<Rightarrow> row \<Rightarrow> row \<Rightarrow> difference list" where
  "row_diffs headers i r1 r2 =
     map (\<lambda>h. CellDiffers (i + 1) h (str (row_get r1 h)) (str (row_get r2 h)))
       (filter (\<lambda>h. cell_differs (str (row_get r1 h)) (str (row_get r2 h))) headers)"

text \<open>The outer loop over \<^verbatim>\<open>enumerate(zip(rows1_sorted, rows2_sorted))\<close>.\<close>

fun compare_rows :: "string list \<Rightarrow> nat \<Rightarrow> row list \<Rightarrow> row list \<Rightarrow> difference list" where
  "compare_rows headers i (r1 # rs1) (r2 # rs2) =
     row_diffs headers i r1 r2 @ compare_rows headers (Suc i) rs1 rs2"
| "compare_rows headers i rs1 rs2 = []"

text \<open>
  \<^verbatim>\<open>row_key\<close>: the tuple of the row's cells, as strings, under the sorted headers of the
  first file. Tuples and strings compare lexicographically, strings by code point.
  Python's \<^verbatim>\<open>sorted\<close> is stable, as \<open>sort_key\<close> is.
\<close>

definition row_key :: "string list \<Rightarrow> row \<Rightarrow> string list" where
  "row_key headers1 r = map (\<lambda>h. str (row_get r h)) (sort headers1)"

text \<open>
  The body of \<^verbatim>\<open>compare_csv_files\<close> below the two \<^verbatim>\<open>with open\<close> blocks: the header
  check, the row count check and the row comparison, which append to \<^verbatim>\<open>differences\<close>
  in this order. Here \<^verbatim>\<open>headers1\<close> and \<^verbatim>\<open>headers2\<close> are lists.
\<close>

definition find_differences ::
  "string list \<Rightarrow> string list \<Rightarrow> row list \<Rightarrow> row list \<Rightarrow> bool \<Rightarrow> difference list" where
  "find_differences headers1 headers2 rows1 rows2 ignore_order =
     (let d1 = (if set headers1 \<noteq> set headers2
                then [HeadersDiffer headers1 headers2] else []);
          d2 = (if length rows1 \<noteq> length rows2
                then [RowCountDiffers (length rows1) (length rows2)] else []);
          rows1_sorted = (if ignore_order then sort_key (row_key headers1) rows1 else rows1);
          rows2_sorted = (if ignore_order then sort_key (row_key headers1) rows2 else rows2)
      in d1 @ d2 @ compare_rows headers1 0 rows1_sorted rows2_sorted)"

text \<open>
  \<^verbatim>\<open>compare_csv_files\<close>, with the records of the two files as input. \<^verbatim>\<open>set(headers1)\<close>
  raises \<^verbatim>\<open>TypeError\<close> when a file has no record at all and its field names are \<^verbatim>\<open>None\<close>.
\<close>

definition compare_csv_files ::
  "csv_file \<Rightarrow> csv_file \<Rightarrow> bool \<Rightarrow> error + bool \<times> difference list" where
  "compare_csv_files file1 file2 ignore_order =
     (case (fieldnames file1, fieldnames file2) of
        (Some headers1, Some headers2) \<Rightarrow>
          let differences =
                find_differences headers1 headers2 (dict_rows file1) (dict_rows file2)
                  ignore_order
          in Inr (length differences = 0, differences)
      | _ \<Rightarrow> Inl TypeError)"

text \<open>A file with a header record; every other input is read as it comes.\<close>

definition has_header :: "csv_file \<Rightarrow> bool" where
  "has_header f = (f \<noteq> [])"

subsection \<open>An example session\<close>

text \<open>
  A session whose catalog already has the table \<^verbatim>\<open>s.t\<close> and whose backend accepts every
  statement.
\<close>

definition session_with_table :: conn where
  "session_with_table =
     \<lparr>schemas = [''s''], tables = [(''s'', ''t'')], issued = [], refuses = (\<lambda>_ _. False)\<rparr>"

section \<open>Properties\<close>

subsection \<open>Type inference\<close>

lemma in_column_values:
  "s \<in> set (column_values h rows) \<longleftrightarrow> (\<exists>r\<in>set rows. row_get r h = Str s \<and> s \<noteq> [])"
  unfolding column_values_def
  by (induction rows) (auto simp: map_filter_simps split: cell.splits)

text \<open>Which of the inferred type names contain \<^verbatim>\<open>INT\<close>, \<^verbatim>\<open>DECIMAL\<close> or \<^verbatim>\<open>FLOAT\<close>.\<close>

lemma no_INT:
  "\<not> contains ''INT'' ''NVARCHAR(255)''" "\<not> contains ''INT'' ''NVARCHAR(50)''"
  "\<not> contains ''INT'' ''NVARCHAR(MAX)''" "\<not> contains ''INT'' ''DECIMAL(18,6)''"
  "\<not> contains ''INT'' ''DATE''" "\<not> contains ''INT'' ''DATETIME2''"
  by simp_all

lemma no_NUM:
  "\<not> contains ''DECIMAL'' ''NVARCHAR(255)''" "\<not> contains ''DECIMAL'' ''NVARCHAR(50)''"
  "\<not> contains ''DECIMAL'' ''NVARCHAR(MAX)''" "\<not> contains ''DECIMAL'' ''INT''"
  "\<not> contains ''DECIMAL'' ''BIGINT''"
  "\<not> contains ''DECIMAL'' ''DATE''" "\<not> contains ''DECIMAL'' ''DATETIME2''"
  "\<not> contains ''FLOAT'' ''NVARCHAR(255)''" "\<not> contains ''FLOAT'' ''NVARCHAR(50)''"
  "\<not> contains ''FLOAT'' ''NVARCHAR(MAX)''" "\<not> contains ''FLOAT'' ''INT''"
  "\<not> contains ''FLOAT'' ''BIGINT''" "\<not> contains ''FLOAT'' ''DECIMAL(18,6)''"
  "\<not> contains ''FLOAT'' ''DATE''" "\<not> contains ''FLOAT'' ''DATETIME2''"
  by simp_all

lemma infer_type_not_int:
  "\<not> list_all (\<lambda>v. py_int v \<noteq> None) vals \<Longrightarrow>
   infer_type vals \<in> {''DECIMAL(18,6)'', ''DATE'', ''DATETIME2'', ''NVARCHAR(50)'',
     ''NVARCHAR(255)'', ''NVARCHAR(MAX)''}"
  unfolding infer_type_def Let_def by (cases "vals = []") simp_all

lemma infer_type_not_num:
  "\<not> list_all (\<lambda>v. py_int v \<noteq> None) vals \<Longrightarrow>
   \<not> list_all (\<lambda>v. py_float v \<noteq> None) vals \<Longrightarrow>
   infer_type vals \<in> {''DATE'', ''DATETIME2'', ''NVARCHAR(50)'',
     ''NVARCHAR(255)'', ''NVARCHAR(MAX)''}"
  unfolding infer_type_def Let_def by (cases "vals = []") simp_all

lemma infer_type_int:
  "vals \<noteq> [] \<Longrightarrow> list_all (\<lambda>v. py_int v \<noteq> None) vals \<Longrightarrow>
   infer_type vals =
     (if \<forall>v\<in>set vals. \<bar>the (py_int v)\<bar> \<le> 2147483647 then ''INT'' else ''BIGINT'')"
  unfolding infer_type_def by (simp add: Max_le_iff)

lemma infer_type_int_INT:
  "vals \<noteq> [] \<Longrightarrow> list_all (\<lambda>v. py_int v \<noteq> None) vals \<Longrightarrow>
   infer_type vals = ''INT'' \<or> infer_type vals = ''BIGINT''"
  by (simp add: infer_type_int)

lemma infer_type_INT:
  assumes "contains ''INT'' (infer_type vals)"
  shows "list_all (\<lambda>v. py_int v \<noteq> None) vals"
proof (rule ccontr)
  assume "\<not> list_all (\<lambda>v. py_int v \<noteq> None) vals"
  from infer_type_not_int [OF this] have
    "infer_type vals = ''DECIMAL(18,6)'' \<or> infer_type vals = ''DATE'' \<or>
     infer_type vals = ''DATETIME2'' \<or> infer_type vals = ''NVARCHAR(50)'' \<or>
     infer_type vals = ''NVARCHAR(255)'' \<or> infer_type vals = ''NVARCHAR(MAX)''"
    by blast
  with assms no_INT show False by metis
qed

lemma infer_type_DECIMAL:
  assumes "\<not> contains ''INT'' (infer_type vals)"
    and "contains ''DECIMAL'' (infer_type vals) \<or> contains ''FLOAT'' (infer_type vals)"
  shows "list_all (\<lambda>v. py_float v \<noteq> None) vals"
proof (rule ccontr)
  assume nf: "\<not> list_all (\<lambda>v. py_float v \<noteq> None) vals"
  then have ne: "vals \<noteq> []" by auto
  show False
  proof (cases "list_all (\<lambda>v. py_int v \<noteq> None) vals")
    case True
    from infer_type_int_INT [OF ne True] assms(1) show ?thesis
      by (metis contains.simps(2) starts_with.simps(1,3))
  next
    case False
    from infer_type_not_num [OF False nf] have
      "infer_type vals = ''DATE'' \<or>
       infer_type vals = ''DATETIME2'' \<or> infer_type vals = ''NVARCHAR(50)'' \<or>
       infer_type vals = ''NVARCHAR(255)'' \<or> infer_type vals = ''NVARCHAR(MAX)''"
      by blast
    with assms(2) no_NUM show ?thesis by metis
  qed
qed

text \<open>Every header gets the type inferred from its own column, duplicates included.\<close>

lemma map_of_infer_loop:
  "map_of (infer_loop headers rows ct) h =
     (if h \<in> set headers then Some (infer_type (column_values h rows)) else map_of ct h)"
  by (induction headers arbitrary: ct) (simp_all add: update_conv')

lemma map_of_infer:
  "h \<in> set headers \<Longrightarrow>
   map_of (infer_column_types headers rows) h = Some (infer_type (column_values h rows))"
  by (simp add: infer_column_types_def map_of_infer_loop)

lemma dict_get_infer:
  "h \<in> set headers \<Longrightarrow>
   dict_get (infer_column_types headers rows) h dflt = infer_type (column_values h rows)"
  by (simp add: dict_get_def map_of_infer)

text \<open>Evaluation of \<^verbatim>\<open>int\<close> on concrete strings.\<close>

lemmas int_defs = py_int_def int_max_str_digits_def strip_def is_space_def signed_decimal_def
  decimal_def digits_to_nat_def is_digit_def digit_val_def Let_def

lemmas float_syntax_defs = py_float_def strip_def is_space_def absfloatvalue_def lower_def
  floatnumber_def is_exp_mark_def number_def is_digit_def

lemmas column_defs = column_values_def map_filter_simps row_get_def

text \<open>
  Claim C1 (as amended). Take a column all of whose non-empty values parse as integers.
  If it has no non-empty value at all it is typed \<^verbatim>\<open>NVARCHAR(255)\<close>. Otherwise it is typed
  \<^verbatim>\<open>INT\<close> when every value has absolute value at most 2147483647, and \<^verbatim>\<open>BIGINT\<close> when
  some value has a larger absolute value.
\<close>

theorem infer_integer_columns:
  assumes "h \<in> set headers"
    and "\<forall>v\<in>set (column_values h rows). py_int v \<noteq> None"
  shows "map_of (infer_column_types headers rows) h =
         Some (if column_values h rows = [] then ''NVARCHAR(255)''
               else if \<forall>v\<in>set (column_values h rows). \<bar>the (py_int v)\<bar> \<le> 2147483647
               then ''INT'' else ''BIGINT'')"
proof (cases "column_values h rows = []")
  case True
  with assms(1) show ?thesis by (simp add: map_of_infer infer_type_def)
next
  case False
  with assms show ?thesis by (simp add: map_of_infer infer_type_int list_all_iff)
qed

theorem infer_integer_columns_witness:
  "''n'' \<in> set [''n''] \<and>
   column_values ''n'' [[''n'' \<mapsto> Str ''2147483647''], [''n'' \<mapsto> Str ''-12'']] =
     [''2147483647'', ''-12''] \<and>
   py_int ''2147483647'' = Some 2147483647 \<and> py_int ''-12'' = Some (- 12) \<and>
   map_of (infer_column_types [''n'']
             [[''n'' \<mapsto> Str ''2147483647''], [''n'' \<mapsto> Str ''-12'']]) ''n'' = Some ''INT''"
  using infer_integer_columns
    [of "''n''" "[''n'']" "[[''n'' \<mapsto> Str ''2147483647''], [''n'' \<mapsto> Str ''-12'']]"]
  by (simp add: column_defs int_defs)

text \<open>
  The claim as stated fails on the CSV with header \<^verbatim>\<open>n,e\<close> and the single row
  \<^verbatim>\<open>-2147483648,\<close>: the value of column \<^verbatim>\<open>n\<close> is an integer of the signed 32-bit range
  and the column is typed \<^verbatim>\<open>BIGINT\<close>; column \<^verbatim>\<open>e\<close> has no non-empty value, so each of
  its non-empty values is a 32-bit integer, and it is typed \<^verbatim>\<open>NVARCHAR(255)\<close>.
\<close>

theorem infer_int32_counterexample:
  "py_int ''-2147483648'' = Some (- 2147483648) \<and>
   - (2 ^ 31) \<le> (- 2147483648 :: int) \<and> (- 2147483648 :: int) \<le> 2 ^ 31 - 1 \<and>
   column_values ''n'' (dict_rows [[''n'', ''e''], [''-2147483648'', []]]) = [''-2147483648''] \<and>
   column_values ''e'' (dict_rows [[''n'', ''e''], [''-2147483648'', []]]) = [] \<and>
   infer_column_types [''n'', ''e''] (dict_rows [[''n'', ''e''], [''-2147483648'', []]]) =
     [(''n'', ''BIGINT''), (''e'', ''NVARCHAR(255)'')]"
  by (simp add: infer_column_types_def dict_rows_def dict_row_def column_defs infer_type_def
      int_defs)

text \<open>
  Claim C6. A column holding a non-empty value that parses neither as an integer nor as a
  float is typed \<^verbatim>\<open>DATE\<close>, \<^verbatim>\<open>DATETIME2\<close> or one of the \<^verbatim>\<open>NVARCHAR\<close> variants, never
  \<^verbatim>\<open>INT\<close>, \<^verbatim>\<open>BIGINT\<close> or \<^verbatim>\<open>DECIMAL(18,6)\<close>.
\<close>

theorem infer_non_numeric_value:
  assumes "h \<in> set headers" and "r \<in> set rows" and "row_get r h = Str v" and "v \<noteq> []"
    and "py_int v = None" and "py_float v = None"
  shows "\<exists>ty. map_of (infer_column_types headers rows) h = Some ty \<and>
              ty \<in> {''DATE'', ''DATETIME2'', ''NVARCHAR(50)'', ''NVARCHAR(255)'',
                    ''NVARCHAR(MAX)''} \<and>
              ty \<notin> {''INT'', ''BIGINT'', ''DECIMAL(18,6)''}"
proof -
  have m: "v \<in> set (column_values h rows)"
    unfolding in_column_values using assms(2,3,4) by blast
  have a: "\<not> list_all (\<lambda>v. py_int v \<noteq> None) (column_values h rows)"
    using m assms(5) by (auto simp: list_all_iff)
  have b: "\<not> list_all (\<lambda>v. py_float v \<noteq> None) (column_values h rows)"
    using m assms(6) by (auto simp: list_all_iff)
  from infer_type_not_num [OF a b] have
    "infer_type (column_values h rows) \<in>
       {''DATE'', ''DATETIME2'', ''NVARCHAR(50)'', ''NVARCHAR(255)'', ''NVARCHAR(MAX)''}" .
  moreover have "ty \<notin> {''INT'', ''BIGINT'', ''DECIMAL(18,6)''}"
    if "ty \<in> {''DATE'', ''DATETIME2'', ''NVARCHAR(50)'', ''NVARCHAR(255)'', ''NVARCHAR(MAX)''}"
    for ty :: string
    using that by auto
  ultimately show ?thesis using assms(1) by (simp add: map_of_infer)
qed

theorem infer_non_numeric_value_witness:
  "''c'' \<in> set [''c''] \<and>
   [''c'' \<mapsto> Str ''abc''] \<in> set [[''c'' \<mapsto> Str ''12''], [''c'' \<mapsto> Str ''abc'']] \<and>
   row_get [''c'' \<mapsto> Str ''abc''] ''c'' = Str ''abc'' \<and> ''abc'' \<noteq> [] \<and>
   py_int ''abc'' = None \<and> py_float ''abc'' = None \<and>
   map_of (infer_column_types [''c''] [[''c'' \<mapsto> Str ''12''], [''c'' \<mapsto> Str ''abc'']]) ''c'' =
     Some ''NVARCHAR(50)''"
  using infer_non_numeric_value
    [of "''c''" "[''c'']" "[''c'' \<mapsto> Str ''abc'']"
        "[[''c'' \<mapsto> Str ''12''], [''c'' \<mapsto> Str ''abc'']]" "''abc''"]
  by (simp add: column_defs int_defs float_syntax_defs infer_column_types_def infer_type_def
      date_pattern_def datetime_pattern_def ymd_def)

subsection \<open>Cell conversion\<close>

lemma convert_value_parses:
  assumes "v \<in> set vals"
  shows "\<exists>x. convert_value (Str v) (infer_type vals) = Inr x"
proof (cases "contains ''INT'' (infer_type vals)")
  case True
  from infer_type_INT [OF True] assms have "py_int v \<noteq> None"
    by (simp add: list_all_iff)
  then obtain n where "py_int v = Some n" by blast
  with True show ?thesis by (simp add: convert_value_def)
next
  case False
  show ?thesis
  proof (cases "contains ''DECIMAL'' (infer_type vals) \<or> contains ''FLOAT'' (infer_type vals)")
    case True
    from infer_type_DECIMAL [OF False True] assms have "py_float v \<noteq> None"
      by (simp add: list_all_iff)
    then obtain x where "py_float v = Some x" by blast
    with False True show ?thesis by (simp add: convert_value_def)
  next
    case nd: False
    with False show ?thesis by (simp add: convert_value_def)
  qed
qed

lemma convert_inferred:
  assumes "h \<in> set headers" and "r \<in> set rows"
  shows "\<exists>x. convert_value (row_get r h)
               (dict_get (infer_column_types headers rows) h dflt) = Inr x"
proof (cases "row_get r h")
  case NoneCell
  then show ?thesis by (simp add: convert_value_def)
next
  case (Str s)
  show ?thesis
  proof (cases "s = []")
    case True
    with Str show ?thesis by (simp add: convert_value_def)
  next
    case False
    with Str assms(2) have "s \<in> set (column_values h rows)"
      unfolding in_column_values by blast
    from convert_value_parses [OF this] Str assms(1) show ?thesis
      by (simp add: dict_get_infer)
  qed
qed

lemma collect_Inr: "collect xs = Inr vs \<Longrightarrow> xs = map Inr vs"
  by (induction xs arbitrary: vs rule: collect.induct) (auto split: sum.splits)

lemma collect_all_Inr:
  "\<forall>x\<in>set xs. \<exists>v. x = Inr v \<Longrightarrow> \<exists>vs. collect xs = Inr vs"
proof (induction xs)
  case Nil
  then show ?case by simp
next
  case (Cons x xs)
  then obtain v vs where "x = Inr v" "collect xs = Inr vs" by auto
  then show ?case by simp
qed

lemma convert_value_empty:
  "r h = None \<or> r h = Some (Str []) \<Longrightarrow>
   convert_value (row_get r h) sql_type = Inr PyNone"
  by (auto simp: convert_value_def row_get_def)

text \<open>
  Claim C10. In the parameter list built for a row, the position of a header whose cell
  is the empty string, and the position of a header that the row does not have, both
  hold \<^verbatim>\<open>None\<close> (SQL NULL), whatever the column types are.
\<close>

theorem empty_and_absent_cells_are_null:
  assumes "i < length headers"
    and "r (headers ! i) = None \<or> r (headers ! i) = Some (Str [])"
  shows "insert_values headers ct r ! i = Inr PyNone \<and>
         (\<forall>vals. collect (insert_values headers ct r) = Inr vals \<longrightarrow> vals ! i = PyNone)"
proof -
  have a: "insert_values headers ct r ! i = Inr PyNone"
    using assms by (simp add: insert_values_def convert_value_empty)
  have "vals ! i = PyNone" if "collect (insert_values headers ct r) = Inr vals" for vals
  proof -
    have e: "insert_values headers ct r = map Inr vals" using that by (rule collect_Inr)
    have "length (insert_values headers ct r) = length headers"
      by (simp add: insert_values_def)
    with e have "length vals = length headers" by simp
    with a e assms(1) show ?thesis by simp
  qed
  with a show ?thesis by blast
qed

theorem empty_and_absent_cells_are_null_witness:
  "(0::nat) < length [''a'', ''b''] \<and>
   (([''b'' \<mapsto> Str ''x''] :: row) ([''a'', ''b''] ! 0) = None \<or>
    ([''b'' \<mapsto> Str ''x''] :: row) ([''a'', ''b''] ! 0) = Some (Str [])) \<and>
   insert_values [''a'', ''b''] [(''a'', ''INT''), (''b'', ''NVARCHAR(50)'')]
     [''b'' \<mapsto> Str ''x''] ! 0 = Inr PyNone"
  using empty_and_absent_cells_are_null
    [of 0 "[''a'', ''b'']" "[''b'' \<mapsto> Str ''x'']"
        "[(''a'', ''INT''), (''b'', ''NVARCHAR(50)'')]"]
  by simp

subsection \<open>Import pipeline\<close>

lemma issued_effect: "issued (effect st c) = issued c"
  by (cases st) simp_all

lemma execute_issued: "execute st c = (res, c') \<Longrightarrow> issued c' = issued c @ [st]"
  by (auto simp: execute_def issued_effect split: if_splits)

lemma execute_error: "execute st c = (Inl e, c') \<Longrightarrow> e = BackendError"
  by (auto simp: execute_def split: if_splits)

lemma inserted_append: "inserted (xs @ ys) = inserted xs @ inserted ys"
  by (induction xs rule: inserted.induct) simp_all

lemma inserted_map_InsertInto: "inserted (map (InsertInto s t cols) valss) = valss"
  by (induction valss) simp_all

text \<open>A completed insert loop has issued one insert per row, with the converted cells.\<close>

lemma insert_rows_issued:
  assumes "insert_rows s t hs ct rs n c = (Inr m, c')"
  shows "\<exists>valss. issued c' = issued c @ map (InsertInto s t hs) valss \<and>
                 map (map Inr) valss = map (insert_values hs ct) rs \<and> m = n + length rs"
  using assms
proof (induction rs arbitrary: n c)
  case Nil
  then show ?case by simp
next
  case (Cons r rs)
  from Cons.prems obtain vals c1 where
    v: "collect (insert_values hs ct r) = Inr vals" and
    e: "execute (InsertInto s t hs vals) c = (Inr (), c1)" and
    rest: "insert_rows s t hs ct rs (n + 1) c1 = (Inr m, c')"
    by (auto split: sum.splits prod.splits)
  from Cons.IH [OF rest] obtain valss where
    i: "issued c' = issued c1 @ map (InsertInto s t hs) valss"
       "map (map Inr) valss = map (insert_values hs ct) rs" "m = n + 1 + length rs"
    by blast
  have "issued c' = issued c @ map (InsertInto s t hs) (vals # valss)"
    using i(1) execute_issued [OF e] by simp
  moreover have "map (map Inr) (vals # valss) = map (insert_values hs ct) (r # rs)"
    using i(2) collect_Inr [OF v] by simp
  ultimately show ?case using i(3) by (intro exI [of _ "vals # valss"]) simp
qed

lemma insert_rows_no_ValueError:
  assumes "\<forall>r\<in>set rs. \<forall>x\<in>set (insert_values hs ct r). \<exists>v. x = Inr v"
  shows "fst (insert_rows s t hs ct rs n c) \<noteq> Inl (ValueError x)"
  using assms
proof (induction rs arbitrary: n c)
  case Nil
  then show ?case by simp
next
  case (Cons r rs)
  then obtain vals where v: "collect (insert_values hs ct r) = Inr vals"
    using collect_all_Inr [of "insert_values hs ct r"] by auto
  obtain res c1 where e: "execute (InsertInto s t hs vals) c = (res, c1)"
    by (cases "execute (InsertInto s t hs vals) c")
  show ?case
  proof (cases res)
    case (Inl err)
    with e have "err = BackendError" by (auto simp: execute_def split: if_splits)
    with v e Inl show ?thesis by simp
  next
    case (Inr u)
    with v e Cons.IH [of "n + 1" c1] Cons.prems show ?thesis by simp
  qed
qed

lemma create_if_needed_issued:
  assumes "create_if_needed c s t ct flag = (res, c')"
  shows "\<exists>pre. issued c' = issued c @ pre \<and> inserted pre = []"
proof (cases flag)
  case False
  with assms show ?thesis by (simp add: create_if_needed_def)
next
  case True
  let ?c1 = "c\<lparr>issued := issued c @ [SelectTableCount s t]\<rparr>"
  show ?thesis
  proof (cases "0 < count_list (tables c) (s, t)")
    case ex: True
    with True assms have "c' = ?c1" by (simp add: create_if_needed_def table_exists_def)
    then show ?thesis by (intro exI [of _ "[SelectTableCount s t]"]) simp
  next
    case nex: False
    obtain r2 c2 where
      e2: "execute (CreateTable s t (generate_create_table s t ct)) ?c1 = (r2, c2)"
      by (cases "execute (CreateTable s t (generate_create_table s t ct)) ?c1")
    have i2: "issued c2 =
        issued c @ [SelectTableCount s t, CreateTable s t (generate_create_table s t ct)]"
      using execute_issued [OF e2] by simp
    show ?thesis
    proof (cases r2)
      case (Inl e)
      with True nex assms e2 have "c' = c2"
        by (simp add: create_if_needed_def table_exists_def)
      with i2 show ?thesis by simp
    next
      case (Inr u)
      with True nex assms e2 have "execute Commit c2 = (res, c')"
        by (simp add: create_if_needed_def table_exists_def)
      from execute_issued [OF this] i2 show ?thesis by simp
    qed
  qed
qed

lemma create_if_needed_error:
  "create_if_needed c s t ct flag = (Inl e, c') \<Longrightarrow> e = BackendError"
  by (auto simp: create_if_needed_def table_exists_def
      split: if_splits prod.splits sum.splits dest: execute_error)

lemma truncate_if_requested_issued:
  assumes "truncate_if_requested c s t flag = (res, c')"
  shows "\<exists>pre. issued c' = issued c @ pre \<and> inserted pre = []"
proof (cases flag)
  case False
  with assms show ?thesis by (simp add: truncate_if_requested_def)
next
  case True
  let ?c1 = "c\<lparr>issued := issued c @ [SelectTableCount s t]\<rparr>"
  show ?thesis
  proof (cases "0 < count_list (tables c) (s, t)")
    case ex: True
    with True assms have "execute (TruncateTable s t) ?c1 = (res, c')"
      by (simp add: truncate_if_requested_def table_exists_def)
    from execute_issued [OF this] show ?thesis by simp
  next
    case nex: False
    with True assms have "c' = ?c1"
      by (simp add: truncate_if_requested_def table_exists_def)
    then show ?thesis by (intro exI [of _ "[SelectTableCount s t]"]) simp
  qed
qed

lemma truncate_if_requested_error:
  "truncate_if_requested c s t flag = (Inl e, c') \<Longrightarrow> e = BackendError"
  by (auto simp: truncate_if_requested_def table_exists_def split: if_splits
      dest: execute_error)

lemma insert_values_inferred:
  "insert_values headers (infer_column_types headers rows) r =
   map (\<lambda>h. convert_value (row_get r h) (infer_type (column_values h rows))) headers"
  unfolding insert_values_def by (rule map_cong) (simp_all add: dict_get_infer)

lemma import_csv_steps:
  assumes "import_csv c f s t create_table tr = (Inr n, c')"
    and "fieldnames f = Some headers" and "dict_rows f \<noteq> []"
  shows "\<exists>c1 c2 c3.
           create_if_needed c s t (infer_column_types headers (dict_rows f)) create_table =
             (Inr (), c1) \<and>
           truncate_if_requested c1 s t tr = (Inr (), c2) \<and>
           insert_rows s t headers (infer_column_types headers (dict_rows f)) (dict_rows f)
             0 c2 = (Inr n, c3) \<and>
           execute Commit c3 = (Inr (), c')"
  using assms unfolding import_csv_def Let_def
  by (simp split: if_splits prod.splits sum.splits)

lemma import_csv_no_ValueError:
  "fst (import_csv c f s t create_table tr) \<noteq> Inl (ValueError x)"
proof (cases "fieldnames f")
  case None
  then show ?thesis by (simp add: import_csv_def)
next
  case (Some headers)
  let ?rows = "dict_rows f"
  let ?ct = "infer_column_types headers ?rows"
  have cells: "\<forall>r\<in>set ?rows. \<forall>y\<in>set (insert_values headers ?ct r). \<exists>v. y = Inr v"
    using convert_inferred [of _ headers _ ?rows] by (auto simp: insert_values_def)
  obtain r1 c1 where s1: "create_if_needed c s t ?ct create_table = (r1, c1)"
    by (cases "create_if_needed c s t ?ct create_table")
  obtain r2 c2 where s2: "truncate_if_requested c1 s t tr = (r2, c2)"
    by (cases "truncate_if_requested c1 s t tr")
  obtain r3 c3 where s3: "insert_rows s t headers ?ct ?rows 0 c2 = (r3, c3)"
    by (cases "insert_rows s t headers ?ct ?rows 0 c2")
  obtain r4 c4 where s4: "execute Commit c3 = (r4, c4)"
    by (cases "execute Commit c3")
  have n3: "r3 \<noteq> Inl (ValueError x)"
    using insert_rows_no_ValueError [OF cells, of s t 0 c2 x] s3 by simp
  have n1: "r1 \<noteq> Inl (ValueError x)"
    using create_if_needed_error [of c s t ?ct create_table "ValueError x" c1] s1 by auto
  have n2: "r2 \<noteq> Inl (ValueError x)"
    using truncate_if_requested_error [of c1 s t tr "ValueError x" c2] s2 by auto
  have n4: "r4 \<noteq> Inl (ValueError x)"
    using execute_error [of Commit c3 "ValueError x" c4] s4 by auto
  show ?thesis
    unfolding import_csv_def Let_def Some
    using s1 s2 s3 s4 n1 n2 n3 n4
    by (cases r1; cases r2; cases r3; cases r4) simp_all
qed

text \<open>
  Claim C9. With the column types that \<^verbatim>\<open>infer_column_types\<close> computes from a header
  list and a row set, \<^verbatim>\<open>convert_value\<close> raises on no cell of these rows under these
  headers; hence \<^verbatim>\<open>import_csv\<close>, which converts with the types inferred from the rows it
  inserts, never fails with the \<^verbatim>\<open>ValueError\<close> of a numeric conversion.
\<close>

theorem convert_value_never_raises:
  "(\<forall>r\<in>set rows. \<forall>h\<in>set headers.
      \<exists>v. convert_value (row_get r h)
             (dict_get (infer_column_types headers rows) h ''NVARCHAR'') = Inr v) \<and>
   (\<forall>x. fst (import_csv c f s t create_table tr) \<noteq> Inl (ValueError x))"
  using convert_inferred import_csv_no_ValueError by blast

theorem convert_value_never_raises_witness:
  "[''id'' \<mapsto> Str ''7'', ''amount'' \<mapsto> Str ''2.5'']
     \<in> set [[''id'' \<mapsto> Str ''7'', ''amount'' \<mapsto> Str ''2.5''],
             [''id'' \<mapsto> Str ''-3'', ''amount'' \<mapsto> Str ''1e3'']] \<and>
   ''amount'' \<in> set [''id'', ''amount''] \<and>
   (\<exists>v. convert_value (row_get [''id'' \<mapsto> Str ''7'', ''amount'' \<mapsto> Str ''2.5''] ''amount'')
          (dict_get (infer_column_types [''id'', ''amount'']
                       [[''id'' \<mapsto> Str ''7'', ''amount'' \<mapsto> Str ''2.5''],
                        [''id'' \<mapsto> Str ''-3'', ''amount'' \<mapsto> Str ''1e3'']])
             ''amount'' ''NVARCHAR'') = Inr v)"
  using convert_value_never_raises
    [of "[[''id'' \<mapsto> Str ''7'', ''amount'' \<mapsto> Str ''2.5''],
          [''id'' \<mapsto> Str ''-3'', ''amount'' \<mapsto> Str ''1e3'']]"
        "[''id'', ''amount'']"
        "\<lparr>schemas = [], tables = [], issued = [], refuses = (\<lambda>_ _. False)\<rparr>"
        "[]" "''s''" "''t''" True False]
  by simp

text \<open>
  Claim C2 (as amended). Whatever \<^verbatim>\<open>create_table\<close> and \<^verbatim>\<open>truncate\<close> are, and whether
  or not the table exists, a completed \<^verbatim>\<open>import_csv\<close> has inserted, for each row of the
  file in order, the cells converted by the type that \<^verbatim>\<open>infer_column_types\<close> gives the
  column from the rows of this very file. The default \<^verbatim>\<open>'NVARCHAR'\<close> of
  \<^verbatim>\<open>col_types.get\<close> never applies, since every header has an inferred type.
\<close>

theorem import_csv_converts_by_inferred_type:
  assumes "import_csv c f s t create_table tr = (Inr n, c')"
    and "fieldnames f = Some headers"
  shows "map (map Inr) (inserted (drop (length (issued c)) (issued c'))) =
         map (\<lambda>r. map (\<lambda>h. convert_value (row_get r h)
                              (infer_type (column_values h (dict_rows f)))) headers)
           (dict_rows f)"
proof (cases "dict_rows f = []")
  case True
  with assms have "c' = c"
    unfolding import_csv_def Let_def by (simp split: if_splits)
  with True show ?thesis by simp
next
  case False
  let ?ct = "infer_column_types headers (dict_rows f)"
  from import_csv_steps [OF assms False] obtain c1 c2 c3 where
    s1: "create_if_needed c s t ?ct create_table = (Inr (), c1)" and
    s2: "truncate_if_requested c1 s t tr = (Inr (), c2)" and
    s3: "insert_rows s t headers ?ct (dict_rows f) 0 c2 = (Inr n, c3)" and
    s4: "execute Commit c3 = (Inr (), c')"
    by blast
  from create_if_needed_issued [OF s1] obtain p1 where
    p1: "issued c1 = issued c @ p1" "inserted p1 = []" by blast
  from truncate_if_requested_issued [OF s2] obtain p2 where
    p2: "issued c2 = issued c1 @ p2" "inserted p2 = []" by blast
  from insert_rows_issued [OF s3] obtain valss where
    p3: "issued c3 = issued c2 @ map (InsertInto s t headers) valss"
        "map (map Inr) valss = map (insert_values headers ?ct) (dict_rows f)"
    by blast
  have "issued c' = issued c @ (p1 @ p2 @ map (InsertInto s t headers) valss @ [Commit])"
    using execute_issued [OF s4] p1(1) p2(1) p3(1) by simp
  then have "inserted (drop (length (issued c)) (issued c')) = valss"
    using p1(2) p2(2) by (simp add: inserted_append inserted_map_InsertInto)
  with p3(2) show ?thesis by (simp add: insert_values_inferred)
qed

lemmas import_defs = import_csv_def fieldnames_def dict_rows_def dict_row_def
  infer_column_types_def column_defs infer_type_def int_defs create_if_needed_def
  truncate_if_requested_def insert_values_def dict_get_def convert_value_def execute_def
  session_with_table_def Let_def

theorem import_csv_converts_by_inferred_type_witness:
  "import_csv session_with_table [[''id''], [''7'']] ''s'' ''t'' False False =
     (Inr 1, session_with_table\<lparr>issued := [InsertInto ''s'' ''t'' [''id''] [PyInt 7], Commit]\<rparr>) \<and>
   fieldnames [[''id''], [''7'']] = Some [''id''] \<and>
   inserted (drop (length (issued session_with_table))
     (issued (session_with_table\<lparr>issued :=
        [InsertInto ''s'' ''t'' [''id''] [PyInt 7], Commit]\<rparr>))) = [[PyInt 7]]"
  using import_csv_converts_by_inferred_type
    [of session_with_table "[[''id''], [''7'']]" "''s''" "''t''" False False 1
        "session_with_table\<lparr>issued := [InsertInto ''s'' ''t'' [''id''] [PyInt 7], Commit]\<rparr>"
        "[''id'']"]
  by (simp add: import_defs)

text \<open>
  The claim as stated fails on the file \<^verbatim>\<open>id\<close> / \<^verbatim>\<open>7\<close> imported into the existing table
  with creation skipped: the cell is inserted as the integer 7, converted by the type
  \<^verbatim>\<open>INT\<close> inferred from the file, whereas a conversion under the fallback type would
  pass the text \<^verbatim>\<open>7\<close> through.
\<close>

theorem import_csv_text_fallback_counterexample:
  "fst (import_csv session_with_table [[''id''], [''7'']] ''s'' ''t'' False False) = Inr 1 \<and>
   issued (snd (import_csv session_with_table [[''id''], [''7'']] ''s'' ''t'' False False)) =
     [InsertInto ''s'' ''t'' [''id''] [PyInt 7], Commit] \<and>
   convert_value (Str ''7'') ''NVARCHAR'' = Inr (PyStr ''7'') \<and>
   PyInt 7 \<noteq> PyStr ''7''"
  by (simp add: import_defs)

lemma dict_rows_blank:
  "\<forall>r\<in>set recs. r = [] \<Longrightarrow> dict_rows (headers # recs) = []"
  by (simp add: dict_rows_def filter_empty_conv)

text \<open>
  Claim C8. For a file with a non-empty header record and no data record (none at all,
  or blank lines only), \<^verbatim>\<open>import_csv\<close> returns 0 and leaves the session as it was: it
  issues no lookup, no table creation, no truncation, no insert and no commit.
\<close>

theorem import_csv_no_data_rows:
  assumes "headers \<noteq> []" and "\<forall>r\<in>set recs. r = []"
  shows "import_csv c (headers # recs) schema_name table_name create_table truncate_flag =
         (Inr 0, c)"
proof -
  have "dict_rows (headers # recs) = []" using assms(2) by (rule dict_rows_blank)
  moreover have "fieldnames (headers # recs) = Some headers" by (simp add: fieldnames_def)
  ultimately show ?thesis using assms(1) unfolding import_csv_def by simp
qed

theorem import_csv_no_data_rows_witness:
  "[''id'', ''name''] \<noteq> [] \<and> filter (\<lambda>r. r \<noteq> []) [[] :: string list] = [] \<and>
   import_csv session_with_table [[''id'', ''name''], []] ''s'' ''t'' True True =
     (Inr 0, session_with_table)"
  using import_csv_no_data_rows
    [of "[''id'', ''name'']" "[[]]" session_with_table "''s''" "''t''" True True]
  by simp

subsection \<open>Dropping a schema\<close>

text \<open>
  Claim C7. For a schema name that the catalog does not have, \<^verbatim>\<open>drop_schema\<close> returns
  \<^verbatim>\<open>True\<close>, and the existence lookup is the only statement it issues: no table
  enumeration, no table drop, no schema drop and no commit.
\<close>

theorem drop_schema_nonexistent:
  "schema_name \<notin> set (schemas c) \<Longrightarrow>
   drop_schema c schema_name cascade =
     (Inr True, c\<lparr>issued := issued c @ [SelectSchemaCount schema_name]\<rparr>)"
  by (simp add: drop_schema_def schema_exists_def count_notin)

theorem drop_schema_nonexistent_witness:
  "''nope'' \<notin> set (schemas session_with_table) \<and>
   drop_schema session_with_table ''nope'' True =
     (Inr True, session_with_table\<lparr>issued := issued session_with_table @
                                       [SelectSchemaCount ''nope'']\<rparr>)"
  using drop_schema_nonexistent [of "''nope''" session_with_table True]
  by (simp add: session_with_table_def)

subsection \<open>CSV comparator\<close>

lemma compare_csv_files_Some:
  assumes "fieldnames file1 = Some headers1" and "fieldnames file2 = Some headers2"
  shows "compare_csv_files file1 file2 io =
     Inr (find_differences headers1 headers2 (dict_rows file1) (dict_rows file2) io = [],
          find_differences headers1 headers2 (dict_rows file1) (dict_rows file2) io)"
  unfolding compare_csv_files_def Let_def assms
  by (simp only: prod.case option.case length_0_conv)

lemma has_header_fieldnames: "has_header f \<Longrightarrow> \<exists>h. fieldnames f = Some h"
  by (cases f) (simp_all add: has_header_def fieldnames_def)

text \<open>
  Claim C3. For two files that each have a header record, in either comparison mode,
  \<^verbatim>\<open>compare_csv_files\<close> returns a result, and its match flag is true exactly when its
  list of differences is empty.
\<close>

theorem compare_match_iff_no_differences:
  assumes "has_header file1" and "has_header file2"
  shows "\<exists>m ds. compare_csv_files file1 file2 ignore_order = Inr (m, ds) \<and> (m \<longleftrightarrow> ds = [])"
proof -
  from assms obtain h1 h2 where "fieldnames file1 = Some h1" "fieldnames file2 = Some h2"
    using has_header_fieldnames by blast
  from compare_csv_files_Some [OF this] show ?thesis by blast
qed

theorem compare_match_iff_no_differences_witness:
  "has_header [[''a'', ''b''], [''1'', ''2'']] \<and> has_header [[''a'', ''b''], [''1'', ''3'']] \<and>
   (\<exists>m ds. compare_csv_files [[''a'', ''b''], [''1'', ''2'']] [[''a'', ''b''], [''1'', ''3'']] True
             = Inr (m, ds) \<and> (m \<longleftrightarrow> ds = []))"
  using compare_match_iff_no_differences
    [of "[[''a'', ''b''], [''1'', ''2'']]" "[[''a'', ''b''], [''1'', ''3'']]" True]
  by (simp add: has_header_def)

text \<open>Emptiness of the difference list, loop by loop.\<close>

lemma float_eq_sym: "float_eq x y = float_eq y x"
  by (cases x; cases y) auto

lemma same_number_sym: "same_number v1 v2 = same_number v2 v1"
  by (simp add: same_number_def float_eq_sym split: option.splits)

lemma cell_differs_sym: "cell_differs v1 v2 = cell_differs v2 v1"
  using same_number_sym [of v1 v2] by (auto simp: cell_differs_def)

lemma row_diffs_empty_iff:
  "row_diffs headers i r1 r2 = [] \<longleftrightarrow>
   (\<forall>h\<in>set headers. \<not> cell_differs (str (row_get r1 h)) (str (row_get r2 h)))"
  by (simp add: row_diffs_def filter_empty_conv)

lemma compare_rows_empty_iff:
  "compare_rows headers i rs1 rs2 = [] \<longleftrightarrow>
   (\<forall>(r1, r2)\<in>set (zip rs1 rs2).
      \<forall>h\<in>set headers. \<not> cell_differs (str (row_get r1 h)) (str (row_get r2 h)))"
  by (induction headers i rs1 rs2 rule: compare_rows.induct)
     (simp_all add: row_diffs_empty_iff)

lemma compare_rows_empty_sym:
  assumes "set headers1 = set headers2"
  shows "compare_rows headers1 i rs1 rs2 = [] \<longleftrightarrow> compare_rows headers2 j rs2 rs1 = []"
proof -
  have "set (zip rs2 rs1) = (\<lambda>(x, y). (y, x)) ` set (zip rs1 rs2)"
    by (subst zip_commute) simp
  then show ?thesis
    unfolding compare_rows_empty_iff assms
    by (auto simp: cell_differs_sym)
qed

lemma find_differences_empty_iff:
  "find_differences headers1 headers2 rows1 rows2 io = [] \<longleftrightarrow>
   set headers1 = set headers2 \<and> length rows1 = length rows2 \<and>
   compare_rows headers1 0
     (if io then sort_key (row_key headers1) rows1 else rows1)
     (if io then sort_key (row_key headers1) rows2 else rows2) = []"
  unfolding find_differences_def Let_def by simp

text \<open>
  The sort depends on the key only through the comparisons it makes, and the comparison
  of two row keys depends on the set of headers only: the first position where two keys
  differ belongs to the least header on which the rows differ.
\<close>

lemma insort_key_cong_le:
  assumes "\<And>y. y \<in> set ys \<Longrightarrow> (f x \<le> f y \<longleftrightarrow> g x \<le> g y)"
  shows "insort_key f x ys = insort_key g x ys"
  using assms by (induction ys) simp_all

lemma sort_key_cong_le:
  assumes "\<And>x y. f x \<le> f y \<longleftrightarrow> g x \<le> g y"
  shows "sort_key f xs = sort_key g xs"
proof (induction xs)
  case Nil
  show ?case by simp
next
  case (Cons x xs)
  have "insort_key f x (sort_key g xs) = insort_key g x (sort_key g xs)"
    by (rule insort_key_cong_le) (rule assms)
  with Cons show ?case by simp
qed

lemma lex_less_sorted:
  fixes f g :: "'a::linorder \<Rightarrow> 'b::linorder"
  assumes "sorted xs"
  shows "map f xs < map g xs \<longleftrightarrow>
         (\<exists>h\<in>set xs. f h < g h \<and> (\<forall>k\<in>set xs. k < h \<longrightarrow> f k = g k))"
  using assms
proof (induction xs)
  case Nil
  show ?case by simp
next
  case (Cons x xs)
  then have IH: "map f xs < map g xs \<longleftrightarrow>
         (\<exists>h\<in>set xs. f h < g h \<and> (\<forall>k\<in>set xs. k < h \<longrightarrow> f k = g k))"
    and le: "\<forall>y\<in>set xs. x \<le> y" by simp_all
  show ?case
  proof (cases "f x = g x")
    case True
    have "(\<exists>h\<in>set (x # xs). f h < g h \<and> (\<forall>k\<in>set (x # xs). k < h \<longrightarrow> f k = g k)) \<longleftrightarrow>
          (\<exists>h\<in>set xs. f h < g h \<and> (\<forall>k\<in>set xs. k < h \<longrightarrow> f k = g k))"
      using True by auto
    with True IH show ?thesis by simp
  next
    case False
    have "(\<exists>h\<in>set (x # xs). f h < g h \<and> (\<forall>k\<in>set (x # xs). k < h \<longrightarrow> f k = g k)) \<longleftrightarrow>
          f x < g x"
    proof
      assume "\<exists>h\<in>set (x # xs). f h < g h \<and> (\<forall>k\<in>set (x # xs). k < h \<longrightarrow> f k = g k)"
      then obtain h where h: "h \<in> set (x # xs)" "f h < g h"
        "\<forall>k\<in>set (x # xs). k < h \<longrightarrow> f k = g k" by blast
      have "\<not> x < h" using h(3) False by auto
      moreover have "x \<le> h" using h(1) le by auto
      ultimately have "h = x" by simp
      with h(2) show "f x < g x" by simp
    next
      assume "f x < g x"
      moreover have "\<forall>k\<in>set (x # xs). k < x \<longrightarrow> f k = g k" using le by auto
      ultimately show
        "\<exists>h\<in>set (x # xs). f h < g h \<and> (\<forall>k\<in>set (x # xs). k < h \<longrightarrow> f k = g k)"
        by auto
    qed
    with False show ?thesis by simp
  qed
qed

lemma lex_le_sorted:
  fixes f g :: "'a::linorder \<Rightarrow> 'b::linorder"
  assumes "sorted xs"
  shows "map f xs \<le> map g xs \<longleftrightarrow>
         (\<exists>h\<in>set xs. f h < g h \<and> (\<forall>k\<in>set xs. k < h \<longrightarrow> f k = g k)) \<or>
         (\<forall>h\<in>set xs. f h = g h)"
  using lex_less_sorted [OF assms, of f g] by (auto simp: le_less)

lemma row_key_le_set:
  assumes "set headers1 = set headers2"
  shows "row_key headers1 r \<le> row_key headers1 r' \<longleftrightarrow>
         row_key headers2 r \<le> row_key headers2 r'"
  unfolding row_key_def using assms by (simp add: lex_le_sorted)

lemma sort_key_row_key_set:
  "set headers1 = set headers2 \<Longrightarrow>
   sort_key (row_key headers1) rs = sort_key (row_key headers2) rs"
  by (rule sort_key_cong_le) (rule row_key_le_set)

lemma find_differences_empty_sym:
  "find_differences headers1 headers2 rows1 rows2 io = [] \<longleftrightarrow>
   find_differences headers2 headers1 rows2 rows1 io = []"
proof (cases "set headers1 = set headers2")
  case True
  have s: "sort_key (row_key headers2) rs = sort_key (row_key headers1) rs" for rs
    using sort_key_row_key_set [OF True, of rs] by simp
  show ?thesis
    unfolding find_differences_empty_iff s
    using compare_rows_empty_sym [OF True] True by auto
next
  case False
  then show ?thesis unfolding find_differences_empty_iff by auto
qed

text \<open>
  Claim C4. For two files that each have a header record, \<^verbatim>\<open>compare_csv_files\<close> returns
  the same match flag for the pair in either order; the difference lists may differ.
\<close>

theorem compare_match_symmetric:
  assumes "has_header file1" and "has_header file2"
  shows "\<exists>m ds ds'. compare_csv_files file1 file2 ignore_order = Inr (m, ds) \<and>
                    compare_csv_files file2 file1 ignore_order = Inr (m, ds')"
proof -
  from assms obtain h1 h2 where h: "fieldnames file1 = Some h1" "fieldnames file2 = Some h2"
    using has_header_fieldnames by blast
  show ?thesis
    unfolding compare_csv_files_Some [OF h] compare_csv_files_Some [OF h(2) h(1)]
    using find_differences_empty_sym
      [of h1 h2 "dict_rows file1" "dict_rows file2" ignore_order]
    by simp
qed

theorem compare_match_symmetric_witness:
  "has_header [[''a'', ''b''], [''1'', ''2'']] \<and> has_header [[''b'', ''a''], [''2.0'', ''1'']] \<and>
   (\<exists>m ds ds'.
      compare_csv_files [[''a'', ''b''], [''1'', ''2'']] [[''b'', ''a''], [''2.0'', ''1'']] True
        = Inr (m, ds) \<and>
      compare_csv_files [[''b'', ''a''], [''2.0'', ''1'']] [[''a'', ''b''], [''1'', ''2'']] True
        = Inr (m, ds'))"
  using compare_match_symmetric
    [of "[[''a'', ''b''], [''1'', ''2'']]" "[[''b'', ''a''], [''2.0'', ''1'']]" True]
  by (simp add: has_header_def)

text \<open>Sorting a permutation gives the same sequence of keys, and the keys decide the
  differences.\<close>

lemma map_sort_key: "map f (sort_key f xs) = sort (map f xs)"
  by (rule properties_for_sort [symmetric]) simp_all

lemma map_sort_key_mset:
  assumes "mset xs = mset ys"
  shows "map f (sort_key f xs) = map f (sort_key f ys)"
proof -
  have "mset (map f xs) = mset (map f ys)" using assms by simp
  then have "sort (map f xs) = sort (map f ys)"
    by (metis mset_sort properties_for_sort sorted_sort)
  then show ?thesis by (simp add: map_sort_key)
qed

lemma row_key_eq_cells:
  assumes "row_key headers r = row_key headers r'" and "h \<in> set headers"
  shows "str (row_get r h) = str (row_get r' h)"
  using assms unfolding row_key_def by simp

lemma row_diffs_key_cong:
  assumes "row_key headers r1 = row_key headers r1'"
    and "row_key headers r2 = row_key headers r2'"
  shows "row_diffs headers i r1 r2 = row_diffs headers i r1' r2'"
proof -
  have eq: "\<forall>h\<in>set headers. str (row_get r1 h) = str (row_get r1' h) \<and>
                              str (row_get r2 h) = str (row_get r2' h)"
    using assms row_key_eq_cells by blast
  have f: "filter (\<lambda>h. cell_differs (str (row_get r1 h)) (str (row_get r2 h))) headers =
        filter (\<lambda>h. cell_differs (str (row_get r1' h)) (str (row_get r2' h))) headers"
    using eq by (intro filter_cong refl) simp
  have m: "map (\<lambda>h. CellDiffers (i + 1) h (str (row_get r1 h)) (str (row_get r2 h))) hs =
     map (\<lambda>h. CellDiffers (i + 1) h (str (row_get r1' h)) (str (row_get r2' h))) hs"
    if "set hs \<subseteq> set headers" for hs
    using eq that by (intro map_cong refl) auto
  show ?thesis
    unfolding row_diffs_def f by (rule m) simp
qed

lemma compare_rows_key_cong:
  assumes "map (row_key headers) rs1 = map (row_key headers) rs1'"
    and "map (row_key headers) rs2 = map (row_key headers) rs2'"
  shows "compare_rows headers i rs1 rs2 = compare_rows headers i rs1' rs2'"
  using assms
proof (induction rs1 arbitrary: i rs1' rs2 rs2')
  case Nil
  then show ?case by simp
next
  case (Cons r1 rs1)
  from Cons.prems(1) obtain r1' t1 where a: "rs1' = r1' # t1"
    "row_key headers r1 = row_key headers r1'"
    "map (row_key headers) rs1 = map (row_key headers) t1"
    by (cases rs1') auto
  show ?case
  proof (cases rs2)
    case Nil
    with Cons.prems(2) a(1) show ?thesis by simp
  next
    case (Cons r2 ts2)
    with Cons.prems(2) obtain r2' t2 where b: "rs2' = r2' # t2"
      "row_key headers r2 = row_key headers r2'"
      "map (row_key headers) ts2 = map (row_key headers) t2"
      by (cases rs2') auto
    from Cons.IH [OF a(3) b(3), of "Suc i"] row_diffs_key_cong [OF a(2) b(2), of i]
      a(1) b(1) Cons
    show ?thesis by simp
  qed
qed

lemma mset_dict_rows:
  "mset recs' = mset recs \<Longrightarrow> mset (dict_rows (h # recs')) = mset (dict_rows (h # recs))"
  by (simp add: dict_rows_def)

lemma find_differences_perm:
  assumes "mset rows1' = mset rows1" and "mset rows2' = mset rows2"
  shows "find_differences headers1 headers2 rows1' rows2' True =
         find_differences headers1 headers2 rows1 rows2 True"
proof -
  have l: "length rows1' = length rows1" "length rows2' = length rows2"
    using assms by (metis size_mset)+
  have "compare_rows headers1 0 (sort_key (row_key headers1) rows1')
          (sort_key (row_key headers1) rows2') =
        compare_rows headers1 0 (sort_key (row_key headers1) rows1)
          (sort_key (row_key headers1) rows2)"
    by (rule compare_rows_key_cong) (rule map_sort_key_mset, rule assms)+
  then show ?thesis
    unfolding find_differences_def Let_def l by simp
qed

text \<open>
  Claim C5. In the order-insensitive mode, permuting the data records of the files (of
  one of them, or of both) leaves the match flag of \<^verbatim>\<open>compare_csv_files\<close> as it is.
\<close>

theorem compare_match_permutation_invariant:
  assumes "mset recs1' = mset recs1" and "mset recs2' = mset recs2"
  shows "\<exists>m ds ds'.
           compare_csv_files (headers1 # recs1') (headers2 # recs2') True = Inr (m, ds) \<and>
           compare_csv_files (headers1 # recs1) (headers2 # recs2) True = Inr (m, ds')"
proof -
  have f: "fieldnames (h # recs) = Some h" for h recs
    by (simp add: fieldnames_def)
  have "find_differences headers1 headers2 (dict_rows (headers1 # recs1'))
          (dict_rows (headers2 # recs2')) True =
        find_differences headers1 headers2 (dict_rows (headers1 # recs1))
          (dict_rows (headers2 # recs2)) True"
    by (rule find_differences_perm) (rule mset_dict_rows, rule assms)+
  then show ?thesis
    unfolding compare_csv_files_Some [OF f f] by simp
qed

theorem compare_match_permutation_invariant_witness:
  "mset [[''2'', ''y''], [''1'', ''x''], [''3'', ''z'']] =
     mset [[''1'', ''x''], [''2'', ''y''], [''3'', ''z'']] \<and>
   mset [[''1'', ''x''], [''2'', ''y''], [''3.0'', ''z'']] =
     mset [[''1'', ''x''], [''2'', ''y''], [''3.0'', ''z'']] \<and>
   (\<exists>m ds ds'.
      compare_csv_files
        [[''id'', ''name''], [''2'', ''y''], [''1'', ''x''], [''3'', ''z'']]
        [[''id'', ''name''], [''1'', ''x''], [''2'', ''y''], [''3.0'', ''z'']] True = Inr (m, ds) \<and>
      compare_csv_files
        [[''id'', ''name''], [''1'', ''x''], [''2'', ''y''], [''3'', ''z'']]
        [[''id'', ''name''], [''1'', ''x''], [''2'', ''y''], [''3.0'', ''z'']] True = Inr (m, ds'))"
  using compare_match_permutation_invariant
    [of "[[''2'', ''y''], [''1'', ''x''], [''3'', ''z'']]"
        "[[''1'', ''x''], [''2'', ''y''], [''3'', ''z'']]"
        "[[''1'', ''x''], [''2'', ''y''], [''3.0'', ''z'']]"
        "[[''1'', ''x''], [''2'', ''y''], [''3.0'', ''z'']]"
        "[''id'', ''name'']" "[''id'', ''name'']"]
  by simp

end
